theory Spec2Isabelle
  imports Complex_Main
begin

section \<open>lie\_groups: a shallow embedding of the core routines\<close>

text \<open>
  The Python package \<^verbatim>\<open>lie_groups\<close> (files \<^verbatim>\<open>core.py\<close>, \<^verbatim>\<open>geodesic.py\<close>,
  \<^verbatim>\<open>weyl.py\<close>, \<^verbatim>\<open>cartan.py\<close>) is modelled function by function. NumPy arrays are
  lists (a matrix is a list of rows), Python floats are reals, a raised exception is the
  left summand of a sum type. Calls into NumPy, SciPy and scikit-learn whose result is
  a numerical factorisation or a fitted model are parameters of the functions that make
  them.
\<close>

subsection \<open>Errors\<close>

text \<open>
  \<^verbatim>\<open>ValueError(f"Unknown embedding method: {method}")\<close> is \<open>UnknownMethod method\<close>.
  \<open>NonPositiveEigenvalue\<close> is the error kind the specification names for the Hermitian
  logarithm. \<open>LibraryError\<close> stands for any exception that a library call raises, with
  the name of the exception.
\<close>

datatype error =
    UnknownMethod string
  | NonPositiveEigenvalue
  | LibraryError string

subsection \<open>geodesic.py: compute\_distance\_matrix\<close>

text \<open>
  \<^verbatim>\<open>
  def compute_distance_matrix(elements, distance_func=None):
      if distance_func is None:
          distance_func = bi_invariant_distance
      n = len(elements)
      D = np.zeros((n, n))
      for i in range(n):
          for j in range(i+1, n):
              d = distance_func(elements[i], elements[j])
              D[i, j] = D[j, i] = d
      return D
  \<close>
  The state of the two loops is the array \<open>D\<close> together with a trace: the list of index
  pairs on which the metric has been called so far, in call order. The trace is not in
  the source; it is what a statement about which calls are made needs.
\<close>

type_synonym dmatrix = "real list list"

text \<open>\<^verbatim>\<open>D[i, j] = v\<close>. The loops only write inside the array, where the update of the
  list is the update of the array.\<close>

definition set_entry :: "dmatrix \<Rightarrow> nat \<Rightarrow> nat \<Rightarrow> real \<Rightarrow> dmatrix" where
  "set_entry D i j v = D[i := (D ! i)[j := v]]"

text \<open>The body of the inner loop. The chained assignment stores left to right.\<close>

definition dm_body ::
  "('a \<Rightarrow> 'a \<Rightarrow> real) \<Rightarrow> 'a list \<Rightarrow> nat \<Rightarrow> nat \<Rightarrow> dmatrix \<times> (nat \<times> nat) list
     \<Rightarrow> dmatrix \<times> (nat \<times> nat) list" where
  "dm_body f elements i j s =
     (let d = f (elements ! i) (elements ! j)
      in (set_entry (set_entry (fst s) i j d) j i d, snd s @ [(i, j)]))"

definition dm_loops ::
  "('a \<Rightarrow> 'a \<Rightarrow> real) \<Rightarrow> 'a list \<Rightarrow> dmatrix \<times> (nat \<times> nat) list" where
  "dm_loops f elements =
     (let n = length elements;
          D = replicate n (replicate n 0)
      in fold (\<lambda>i s. fold (dm_body f elements i) [i + 1 ..< n] s) [0 ..< n] (D, []))"

text \<open>The default metric \<^verbatim>\<open>bi_invariant_distance\<close> is the first argument.\<close>

definition compute_distance_matrix_traced ::
  "('a \<Rightarrow> 'a \<Rightarrow> real) \<Rightarrow> 'a list \<Rightarrow> ('a \<Rightarrow> 'a \<Rightarrow> real) option
     \<Rightarrow> dmatrix \<times> (nat \<times> nat) list" where
  "compute_distance_matrix_traced bi_invariant_distance elements distance_func =
     (let f = (case distance_func of None \<Rightarrow> bi_invariant_distance | Some g \<Rightarrow> g)
      in dm_loops f elements)"

definition compute_distance_matrix ::
  "('a \<Rightarrow> 'a \<Rightarrow> real) \<Rightarrow> 'a list \<Rightarrow> ('a \<Rightarrow> 'a \<Rightarrow> real) option \<Rightarrow> dmatrix" where
  "compute_distance_matrix bi_invariant_distance elements distance_func =
     fst (compute_distance_matrix_traced bi_invariant_distance elements distance_func)"

definition metric_calls ::
  "('a \<Rightarrow> 'a \<Rightarrow> real) \<Rightarrow> 'a list \<Rightarrow> ('a \<Rightarrow> 'a \<Rightarrow> real) option \<Rightarrow> (nat \<times> nat) list" where
  "metric_calls bi_invariant_distance elements distance_func =
     snd (compute_distance_matrix_traced bi_invariant_distance elements distance_func)"

text \<open>The pairs of the upper triangle of a \<open>k \<times> k\<close> array, row by row.\<close>

definition upper_pairs :: "nat \<Rightarrow> (nat \<times> nat) list" where
  "upper_pairs k = concat (map (\<lambda>i. map (Pair i) [i + 1 ..< k]) [0 ..< k])"

definition square :: "nat \<Rightarrow> dmatrix \<Rightarrow> bool" where
  "square n D \<longleftrightarrow> length D = n \<and> (\<forall>r \<in> set D. length r = n)"

subsection \<open>geodesic.py: isomap\_embedding and geodesic\_embedding\<close>

text \<open>
  A group element is a NumPy array of real or of complex entries.
\<close>

datatype element = RealMat "real list list" | ComplexMat "complex list list"

type_synonym metric = "element \<Rightarrow> element \<Rightarrow> real"

type_synonym embedding = "real list list"

text \<open>
  The three scikit-learn estimators are parameters. Each takes its constructor arguments
  and the array given to \<^verbatim>\<open>fit_transform\<close>, and returns the embedding or the name of
  the exception it raised:
  \<^verbatim>\<open>Isomap(n_neighbors, n_components, metric='precomputed').fit_transform(D)\<close>,
  \<^verbatim>\<open>MDS(n_components, dissimilarity='precomputed', random_state).fit_transform(D)\<close>,
  \<^verbatim>\<open>PCA(n_components).fit_transform(X)\<close>.
\<close>

record sklearn =
  isomap_fit_transform :: "int \<Rightarrow> int \<Rightarrow> dmatrix \<Rightarrow> string + embedding"
  mds_fit_transform :: "int \<Rightarrow> int \<Rightarrow> dmatrix \<Rightarrow> string + embedding"
  pca_fit_transform :: "int \<Rightarrow> real list list \<Rightarrow> string + embedding"

definition library_result :: "string + 'a \<Rightarrow> error + 'a" where
  "library_result r = (case r of Inl name \<Rightarrow> Inl (LibraryError name) | Inr v \<Rightarrow> Inr v)"

text \<open>
  \<^verbatim>\<open>
  def isomap_embedding(elements, n_components=2, n_neighbors=12,
                       distance_func=None, return_distance_matrix=False):
      D = compute_distance_matrix(elements, distance_func)
      embedding = Isomap(n_neighbors=n_neighbors, n_components=n_components,
                         metric='precomputed').fit_transform(D)
      if return_distance_matrix:
          return embedding, D
      return embedding
  \<close>
  The result is the embedding, with the distance matrix when it was asked for.
\<close>

definition isomap_embedding ::
  "sklearn \<Rightarrow> metric \<Rightarrow> element list \<Rightarrow> int \<Rightarrow> int \<Rightarrow> metric option \<Rightarrow> bool
     \<Rightarrow> error + embedding \<times> dmatrix option" where
  "isomap_embedding lib bid elements n_components n_neighbors distance_func
       return_distance_matrix =
     (let D = compute_distance_matrix bid elements distance_func
      in case library_result (isomap_fit_transform lib n_neighbors n_components D) of
           Inl e \<Rightarrow> Inl e
         | Inr embedding \<Rightarrow>
             if return_distance_matrix then Inr (embedding, Some D)
             else Inr (embedding, None))"

text \<open>\<^verbatim>\<open>g.flatten()\<close>, as the complex row that \<^verbatim>\<open>np.array\<close> makes of it when some
  element is complex, and as a real row.\<close>

fun flatten_complex :: "element \<Rightarrow> complex list" where
  "flatten_complex (RealMat m) = map complex_of_real (concat m)"
| "flatten_complex (ComplexMat m) = concat m"

fun flatten_real :: "element \<Rightarrow> real list" where
  "flatten_real (RealMat m) = concat m"
| "flatten_real (ComplexMat m) = map Re (concat m)"

fun iscomplexobj :: "element \<Rightarrow> bool" where
  "iscomplexobj (RealMat m) = False"
| "iscomplexobj (ComplexMat m) = True"

text \<open>
  \<^verbatim>\<open>
  X = np.array([g.flatten() for g in elements])
  if np.iscomplexobj(X):
      X = np.hstack([X.real, X.imag])
  \<close>
\<close>

definition pca_features :: "element list \<Rightarrow> real list list" where
  "pca_features elements =
     (if \<exists>g \<in> set elements. iscomplexobj g
      then map (\<lambda>g. map Re (flatten_complex g) @ map Im (flatten_complex g)) elements
      else map flatten_real elements)"

text \<open>
  \<^verbatim>\<open>
  def geodesic_embedding(elements, method="isomap", n_components=2,
                         distance_func=None, **kwargs):
      if method == "isomap":
          n_neighbors = kwargs.get('n_neighbors', 12)
          return isomap_embedding(elements, n_components=n_components,
                                  n_neighbors=n_neighbors, distance_func=distance_func)
      elif method == "mds":
          D = compute_distance_matrix(elements, distance_func)
          mds = MDS(n_components=n_components, dissimilarity='precomputed',
                    random_state=kwargs.get('random_state', 42))
          return mds.fit_transform(D)
      elif method == "pca":
          X = ...
          pca = PCA(n_components=n_components)
          return pca.fit_transform(X)
      else:
          raise ValueError(f"Unknown embedding method: {method}")
  \<close>
  The keyword arguments are a map from names to integers.
\<close>

definition geodesic_embedding ::
  "sklearn \<Rightarrow> metric \<Rightarrow> element list \<Rightarrow> string \<Rightarrow> int \<Rightarrow> metric option
     \<Rightarrow> (string \<rightharpoonup> int) \<Rightarrow> error + embedding" where
  "geodesic_embedding lib bid elements method n_components distance_func kwargs =
     (if method = ''isomap'' then
        (let n_neighbors = (case kwargs ''n_neighbors'' of None \<Rightarrow> 12 | Some v \<Rightarrow> v)
         in case isomap_embedding lib bid elements n_components n_neighbors distance_func False of
              Inl e \<Rightarrow> Inl e
            | Inr r \<Rightarrow> Inr (fst r))
      else if method = ''mds'' then
        (let D = compute_distance_matrix bid elements distance_func;
             random_state = (case kwargs ''random_state'' of None \<Rightarrow> 42 | Some v \<Rightarrow> v)
         in library_result (mds_fit_transform lib n_components random_state D))
      else if method = ''pca'' then
        (let X = pca_features elements
         in library_result (pca_fit_transform lib n_components X))
      else Inl (UnknownMethod method))"

text \<open>An estimator library for concrete evaluation: every fit puts each sample at
  the origin of the target space.\<close>

definition origin_sklearn :: sklearn where
  "origin_sklearn =
     \<lparr> isomap_fit_transform = (\<lambda>k d D. Inr (map (\<lambda>r. replicate (nat d) 0) D)),
       mds_fit_transform = (\<lambda>d seed D. Inr (map (\<lambda>r. replicate (nat d) 0) D)),
       pca_fit_transform = (\<lambda>d X. Inr (map (\<lambda>r. replicate (nat d) 0) X)) \<rparr>"

subsection \<open>core.py: random\_sun\<close>








subsection \<open>Linear algebra: arrays of floats and the LAPACK routines\<close>

type_synonym cmatrix = "complex list list"

text \<open>
  The SciPy wrappers of LAPACK are parameters. Each returns its factorisation or the name
  of the exception it raised: \<^verbatim>\<open>la.eigh(U)\<close> the eigenvalues (real, ascending) and a
  matrix whose columns are eigenvectors, \<^verbatim>\<open>la.eig(U)\<close> the eigenvalues and a matrix of
  eigenvectors, \<^verbatim>\<open>la.inv(V)\<close> the inverse.
\<close>

record lapack =
  eigh :: "cmatrix \<Rightarrow> string + real list \<times> cmatrix"
  eig :: "cmatrix \<Rightarrow> string + complex list \<times> cmatrix"
  inv :: "cmatrix \<Rightarrow> string + cmatrix"






definition ncols :: "'a list list \<Rightarrow> nat" where
  "ncols A = (case A of [] \<Rightarrow> 0 | r # _ \<Rightarrow> length r)"






subsection \<open>core.py: matrix\_log\<close>


text \<open>
  LAPACK at diagonal matrices, for concrete evaluation: the eigenvalues of a diagonal
  matrix are its diagonal entries (for \<^verbatim>\<open>eigh\<close>: of a real diagonal matrix whose
  diagonal ascends), the identity is a matrix of eigenvectors, and the inverse is the
  diagonal matrix of the reciprocals.
\<close>

definition diagonal :: "cmatrix \<Rightarrow> complex list" where
  "diagonal U = map (\<lambda>i. U ! i ! i) [0 ..< length U]"

definition identity :: "nat \<Rightarrow> cmatrix" where
  "identity n = map (\<lambda>i. map (\<lambda>j. if i = j then 1 else 0) [0 ..< n]) [0 ..< n]"

definition diagonal_lapack :: lapack where
  "diagonal_lapack =
     \<lparr> eigh = (\<lambda>U. Inr (map Re (diagonal U), identity (length U))),
       eig = (\<lambda>U. Inr (diagonal U, identity (length U))),
       inv = (\<lambda>U. Inr (map (\<lambda>i. map (\<lambda>j. if i = j then 1 / (U ! i ! i) else 0)
                                       [0 ..< length U]) [0 ..< length U])) \<rparr>"



subsection \<open>weyl.py: su3\_alcove\_coords and sun\_alcove\_coords\<close>

text \<open>\<^verbatim>\<open>angles.mean()\<close> and \<^verbatim>\<open>np.diff(angles)\<close>. The mean of an empty array is
  \<^verbatim>\<open>nan\<close>; below it is only subtracted from the entries of the same array.\<close>

definition mean :: "real list \<Rightarrow> real" where
  "mean xs = sum_list xs / real (length xs)"

definition np_diff :: "real list \<Rightarrow> real list" where
  "np_diff xs = map (\<lambda>i. xs ! (i + 1) - xs ! i) [0 ..< length xs - 1]"

text \<open>
  \<^verbatim>\<open>
  w, _ = la.eig(U)
  angles = np.angle(w)  # in (-pi, pi]
  angles -= angles.mean()
  angles = np.sort(angles)[::-1]
  \<close>
  is common to both routines.
\<close>

definition sorted_angles :: "complex list \<Rightarrow> real list" where
  "sorted_angles w =
     (let angles = map Arg w;
          m = mean angles;
          angles = map (\<lambda>a. a - m) angles
      in rev (sort angles))"

text \<open>
  \<^verbatim>\<open>
  def su3_alcove_coords(U):
      ...
      e1 = angles[0] - angles[1]
      e2 = angles[1] - angles[2]
      return np.array([e1, e2])
  \<close>
  Indexing raises \<^verbatim>\<open>IndexError\<close> when there are fewer than three angles.
\<close>

definition su3_alcove_coords :: "lapack \<Rightarrow> cmatrix \<Rightarrow> error + real list" where
  "su3_alcove_coords lib U =
     (case library_result (eig lib U) of
        Inl e \<Rightarrow> Inl e
      | Inr (w, V) \<Rightarrow>
          (let angles = sorted_angles w
           in if length angles < 3 then Inl (LibraryError ''IndexError'')
              else (let e1 = angles ! 0 - angles ! 1;
                        e2 = angles ! 1 - angles ! 2
                    in Inr [e1, e2])))"

text \<open>
  \<^verbatim>\<open>
  def sun_alcove_coords(U):
      n = U.shape[0]
      ...
      return np.diff(angles)
  \<close>
\<close>

definition sun_alcove_coords :: "lapack \<Rightarrow> cmatrix \<Rightarrow> error + real list" where
  "sun_alcove_coords lib U =
     (case library_result (eig lib U) of
        Inl e \<Rightarrow> Inl e
      | Inr (w, V) \<Rightarrow> Inr (np_diff (sorted_angles w)))"

subsection \<open>geodesic.py: analyze\_embedding\_quality\<close>

text \<open>
  A real float is a number, an infinity or \<^verbatim>\<open>nan\<close>. Division and square root follow
  NumPy: a division by zero gives an infinity or \<^verbatim>\<open>nan\<close> with a warning, and the square
  root of a negative number gives \<^verbatim>\<open>nan\<close>.
\<close>

datatype npfloat = Num real | PosInf | NegInf | NaN

definition np_div :: "real \<Rightarrow> real \<Rightarrow> npfloat" where
  "np_div a b =
     (if b \<noteq> 0 then Num (a / b)
      else if a = 0 then NaN else if 0 < a then PosInf else NegInf)"

fun np_sqrt :: "npfloat \<Rightarrow> npfloat" where
  "np_sqrt (Num r) = (if 0 \<le> r then Num (sqrt r) else NaN)"
| "np_sqrt PosInf = PosInf"
| "np_sqrt NegInf = NaN"
| "np_sqrt NaN = NaN"

text \<open>
  \<^verbatim>\<open>squareform(pdist(embedding))\<close>: the square array of the Euclidean distances between
  the rows of the embedding, with zero diagonal; for fewer than two rows, the condensed
  vector is empty and \<^verbatim>\<open>squareform\<close> returns the \<open>1 \<times> 1\<close> zero array.
\<close>

definition euclidean :: "real list \<Rightarrow> real list \<Rightarrow> real" where
  "euclidean x y = sqrt (sum_list (map2 (\<lambda>a b. (a - b)\<^sup>2) x y))"

definition squareform_pdist :: "real list list \<Rightarrow> dmatrix" where
  "squareform_pdist X =
     (let n = length X
      in if n \<le> 1 then [[0]]
         else map (\<lambda>i. map (\<lambda>j. if i = j then 0 else euclidean (X ! i) (X ! j)) [0 ..< n])
                [0 ..< n])"

text \<open>\<^verbatim>\<open>np.triu_indices_from(D, k=1)\<close>: the index pairs strictly above the diagonal of
  an array with the shape of \<open>D\<close>, row by row.\<close>

definition triu_indices :: "nat \<Rightarrow> nat \<Rightarrow> (nat \<times> nat) list" where
  "triu_indices rows cols = concat (map (\<lambda>i. map (Pair i) [i + 1 ..< cols]) [0 ..< rows])"

definition triu_indices_from :: "dmatrix \<Rightarrow> (nat \<times> nat) list" where
  "triu_indices_from D = triu_indices (length D) (ncols D)"

text \<open>\<^verbatim>\<open>A[mask]\<close>: the entries at the index pairs, and whether every pair lies inside
  \<open>A\<close> (NumPy raises \<^verbatim>\<open>IndexError\<close> otherwise).\<close>

definition take_mask :: "dmatrix \<Rightarrow> (nat \<times> nat) list \<Rightarrow> real list" where
  "take_mask A pairs = map (\<lambda>p. A ! fst p ! snd p) pairs"

definition mask_in_bounds :: "dmatrix \<Rightarrow> (nat \<times> nat) list \<Rightarrow> bool" where
  "mask_in_bounds A pairs = list_all (\<lambda>p. fst p < length A \<and> snd p < ncols A) pairs"

text \<open>
  \<^verbatim>\<open>scipy.stats.pearsonr(x, y)\<close>: raises \<^verbatim>\<open>ValueError\<close> when the lengths differ or
  are below two; returns \<^verbatim>\<open>nan\<close> (with a warning) when an input is constant; otherwise
  centres both vectors, divides each by its Euclidean norm, takes the dot product and
  clips it to \<open>[-1, 1]\<close>.
\<close>

definition constant_input :: "real list \<Rightarrow> bool" where
  "constant_input x = list_all (\<lambda>a. a = hd x) x"

definition center :: "real list \<Rightarrow> real list" where
  "center x = map (\<lambda>a. a - mean x) x"

definition norm2 :: "real list \<Rightarrow> real" where
  "norm2 x = sqrt (sum_list (map (\<lambda>a. a\<^sup>2) x))"

definition dot :: "real list \<Rightarrow> real list \<Rightarrow> real" where
  "dot x y = sum_list (map2 (*) x y)"

definition clip :: "real \<Rightarrow> real" where
  "clip r = max (min r 1) (- 1)"

definition pearsonr :: "real list \<Rightarrow> real list \<Rightarrow> error + npfloat" where
  "pearsonr x y =
     (if length x \<noteq> length y then Inl (LibraryError ''ValueError'')
      else if length x < 2 then Inl (LibraryError ''ValueError'')
      else if constant_input x \<or> constant_input y then Inr NaN
      else (let xm = center x; ym = center y;
                normxm = norm2 xm; normym = norm2 ym;
                r = dot (map (\<lambda>a. a / normxm) xm) (map (\<lambda>a. a / normym) ym)
            in Inr (Num (clip r))))"

text \<open>
  \<^verbatim>\<open>scipy.stats.spearmanr(x, y)\<close>: \<^verbatim>\<open>nan\<close> for at most one observation or a constant
  input; otherwise \<^verbatim>\<open>np.corrcoef\<close> of the ranks, ties getting the average of their
  ranks. \<^verbatim>\<open>np.corrcoef\<close> divides the covariance by the two standard deviations and
  clips the result to \<open>[-1, 1]\<close>.
\<close>

definition rankdata :: "real list \<Rightarrow> real list" where
  "rankdata x =
     map (\<lambda>a. real (length (filter (\<lambda>b. b < a) x))
              + (real (length (filter (\<lambda>b. b = a) x)) + 1) / 2) x"

definition cov :: "real list \<Rightarrow> real list \<Rightarrow> real" where
  "cov x y = dot (center x) (center y) / (real (length x) - 1)"

definition corrcoef :: "real list \<Rightarrow> real list \<Rightarrow> real" where
  "corrcoef x y = clip (cov x y / sqrt (cov x x) / sqrt (cov y y))"

definition spearmanr :: "real list \<Rightarrow> real list \<Rightarrow> npfloat" where
  "spearmanr x y =
     (if length x \<le> 1 then NaN
      else if constant_input x \<or> constant_input y then NaN
      else Num (corrcoef (rankdata x) (rankdata y)))"

text \<open>
  \<^verbatim>\<open>
  def analyze_embedding_quality(embedding, distance_matrix):
      embed_dist = squareform(pdist(embedding))
      mask = np.triu_indices_from(distance_matrix, k=1)
      orig_flat = distance_matrix[mask]
      embed_flat = embed_dist[mask]
      pearson_r, _ = pearsonr(orig_flat, embed_flat)
      spearman_r, _ = spearmanr(orig_flat, embed_flat)
      stress = np.sqrt(np.sum((orig_flat - embed_flat)**2) / np.sum(orig_flat**2))
      return {
          'pearson_correlation': pearson_r,
          'spearman_correlation': spearman_r,
          'normalized_stress': stress,
          'mean_distortion': np.mean(np.abs(orig_flat - embed_flat)),
          'max_distortion': np.max(np.abs(orig_flat - embed_flat))
      }
  \<close>
  \<^verbatim>\<open>np.mean\<close> of an empty array is \<^verbatim>\<open>nan\<close>; \<^verbatim>\<open>np.max\<close> of an empty array raises
  \<^verbatim>\<open>ValueError\<close>.
\<close>

record quality =
  pearson_correlation :: npfloat
  spearman_correlation :: npfloat
  normalized_stress :: npfloat
  mean_distortion :: npfloat
  max_distortion :: npfloat

definition np_mean :: "real list \<Rightarrow> npfloat" where
  "np_mean xs = (if xs = [] then NaN else Num (sum_list xs / real (length xs)))"

definition analyze_embedding_quality :: "real list list \<Rightarrow> dmatrix \<Rightarrow> error + quality" where
  "analyze_embedding_quality embedding distance_matrix =
     (let embed_dist = squareform_pdist embedding;
          mask_pairs = triu_indices_from distance_matrix;
          orig_flat = take_mask distance_matrix mask_pairs
      in if \<not> mask_in_bounds embed_dist mask_pairs then Inl (LibraryError ''IndexError'')
         else
          (let embed_flat = take_mask embed_dist mask_pairs
           in case pearsonr orig_flat embed_flat of
                Inl e \<Rightarrow> Inl e
              | Inr pearson_r \<Rightarrow>
                  (let spearman_r = spearmanr orig_flat embed_flat;
                       diffs = map2 (-) orig_flat embed_flat;
                       stress = np_sqrt (np_div (sum_list (map (\<lambda>d. d\<^sup>2) diffs))
                                                (sum_list (map (\<lambda>a. a\<^sup>2) orig_flat)));
                       distortions = map abs diffs
                   in if distortions = [] then Inl (LibraryError ''ValueError'')
                      else Inr \<lparr> pearson_correlation = pearson_r,
                                 spearman_correlation = spearman_r,
                                 normalized_stress = stress,
                                 mean_distortion = np_mean distortions,
                                 max_distortion = Num (Max (set distortions)) \<rparr>)))"

text \<open>
  A perfect embedding: the distance matrix is square, with one row for each point, and
  its entries above the diagonal are the Euclidean distances of the embedded points.
\<close>

definition perfect_embedding :: "real list list \<Rightarrow> dmatrix \<Rightarrow> bool" where
  "perfect_embedding embedding D \<longleftrightarrow>
     length D = length embedding \<and> list_all (\<lambda>r. length r = length embedding) D
     \<and> list_all (\<lambda>p. D ! fst p ! snd p = euclidean (embedding ! fst p) (embedding ! snd p))
         (upper_pairs (length embedding))"



section \<open>Properties of the distance-matrix builder\<close>

lemma square_set_entry:
  assumes "square n D"
  shows "square n (set_entry D i j v)"
proof (cases "i < length D")
  case True
  with assms have "length ((D ! i)[j := v]) = n" by (simp add: square_def)
  moreover have "set (D[i := (D ! i)[j := v]]) \<subseteq> insert ((D ! i)[j := v]) (set D)"
    by (rule set_update_subset_insert)
  ultimately show ?thesis using assms by (auto simp: square_def set_entry_def)
next
  case False
  with assms show ?thesis by (simp add: set_entry_def list_update_beyond)
qed

lemma nth_set_entry:
  assumes "square n D" "a < n"
  shows "set_entry D i j v ! a ! b = (if a = i \<and> b = j \<and> j < n then v else D ! a ! b)"
proof (cases "a = i")
  case True
  with assms have "length (D ! i) = n" by (simp add: square_def)
  with True assms show ?thesis
    by (cases "j < n") (auto simp: set_entry_def square_def nth_list_update list_update_beyond)
next
  case False
  with assms show ?thesis by (simp add: set_entry_def square_def)
qed

lemma nested_fold_pairs:
  "fold (\<lambda>i s. fold (g i) (js i) s) is s
     = fold (\<lambda>p. g (fst p) (snd p)) (concat (map (\<lambda>i. map (Pair i) (js i)) is)) s"
proof (induction "is" arbitrary: s)
  case Nil
  show ?case by simp
next
  case (Cons i "is")
  have "fold (g i) (js i) s = fold (\<lambda>p. g (fst p) (snd p)) (map (Pair i) (js i)) s"
    by (simp add: fold_map comp_def)
  with Cons show ?case by simp
qed

lemma dm_loops_pairs:
  "dm_loops f es =
     fold (\<lambda>p. dm_body f es (fst p) (snd p)) (upper_pairs (length es))
       (replicate (length es) (replicate (length es) 0), [])"
  by (simp add: dm_loops_def upper_pairs_def Let_def nested_fold_pairs)

lemma fold_body_trace:
  "snd (fold (\<lambda>p. dm_body f es (fst p) (snd p)) ps s) = snd s @ ps"
  by (induction ps arbitrary: s) (simp_all add: dm_body_def Let_def)

lemma fold_body_square:
  "square n (fst s) \<Longrightarrow> square n (fst (fold (\<lambda>p. dm_body f es (fst p) (snd p)) ps s))"
  by (induction ps arbitrary: s) (simp_all add: dm_body_def Let_def square_set_entry)

lemma fold_body_entries:
  assumes "square n (fst s)" "\<forall>p \<in> set ps. fst p < snd p \<and> snd p < n" "a < n" "b < n"
  shows "fst (fold (\<lambda>p. dm_body f es (fst p) (snd p)) ps s) ! a ! b =
           (if (a, b) \<in> set ps then f (es ! a) (es ! b)
            else if (b, a) \<in> set ps then f (es ! b) (es ! a)
            else fst s ! a ! b)"
  using assms
proof (induction ps arbitrary: s rule: rev_induct)
  case Nil
  show ?case by simp
next
  case (snoc p ps)
  obtain i j where p: "p = (i, j)" by (cases p)
  from snoc.prems p have ij: "i < j" "j < n" by auto
  let ?s' = "fold (\<lambda>p. dm_body f es (fst p) (snd p)) ps s"
  have sq: "square n (fst ?s')" using snoc.prems(1) by (rule fold_body_square)
  have IH: "fst ?s' ! a ! b =
           (if (a, b) \<in> set ps then f (es ! a) (es ! b)
            else if (b, a) \<in> set ps then f (es ! b) (es ! a)
            else fst s ! a ! b)"
    using snoc.IH [of s] snoc.prems by simp
  have no_rev: "(j, i) \<notin> set ps" "(j, i) \<noteq> (i, j)"
    using snoc.prems(2) ij by auto
  have sq1: "square n (set_entry (fst ?s') i j (f (es ! i) (es ! j)))"
    using sq by (rule square_set_entry)
  have step: "fst (dm_body f es i j ?s') ! a ! b =
      (if (a = i \<and> b = j) \<or> (a = j \<and> b = i) then f (es ! i) (es ! j) else fst ?s' ! a ! b)"
    using ij snoc.prems(3)
    by (simp add: dm_body_def Let_def nth_set_entry [OF sq1] nth_set_entry [OF sq])
  have unfold: "fold (\<lambda>p. dm_body f es (fst p) (snd p)) (ps @ [p]) s = dm_body f es i j ?s'"
    by (simp add: p)
  show ?case
  proof (cases "(a = i \<and> b = j) \<or> (a = j \<and> b = i)")
    case True
    then show ?thesis
    proof
      assume ab: "a = i \<and> b = j"
      have "fst (dm_body f es i j ?s') ! a ! b = f (es ! a) (es ! b)"
        unfolding step using ab by simp
      moreover have "(a, b) \<in> set (ps @ [p])" using ab by (simp add: p)
      ultimately show ?thesis by (simp only: unfold if_True)
    next
      assume ab: "a = j \<and> b = i"
      have "fst (dm_body f es i j ?s') ! a ! b = f (es ! b) (es ! a)"
        unfolding step using ab by simp
      moreover have "(a, b) \<notin> set (ps @ [p])" using ab no_rev by (simp add: p)
      moreover have "(b, a) \<in> set (ps @ [p])" using ab by (simp add: p)
      ultimately show ?thesis by (simp only: unfold if_True if_False)
    qed
  next
    case False
    then have "fst (dm_body f es i j ?s') ! a ! b = fst ?s' ! a ! b"
      by (simp only: step if_False)
    moreover from False have "(a, b) \<in> set (ps @ [p]) \<longleftrightarrow> (a, b) \<in> set ps"
      "(b, a) \<in> set (ps @ [p]) \<longleftrightarrow> (b, a) \<in> set ps"
      by (auto simp: p)
    ultimately show ?thesis by (simp only: unfold IH)
  qed
qed

lemma upper_pairs_set: "set (upper_pairs k) = {(i, j). i < j \<and> j < k}"
  by (force simp: upper_pairs_def)

lemma square_zeros: "square n (replicate n (replicate n 0))"
  by (simp add: square_def)

lemma dm_loops_entry:
  assumes "a < length es" "b < length es"
  shows "fst (dm_loops f es) ! a ! b =
           (if a < b then f (es ! a) (es ! b)
            else if b < a then f (es ! b) (es ! a) else 0)"
proof -
  let ?n = "length es"
  have "fst (dm_loops f es) ! a ! b =
           (if (a, b) \<in> set (upper_pairs ?n) then f (es ! a) (es ! b)
            else if (b, a) \<in> set (upper_pairs ?n) then f (es ! b) (es ! a)
            else replicate ?n (replicate ?n (0::real)) ! a ! b)"
    unfolding dm_loops_pairs
    using fold_body_entries [of ?n "(replicate ?n (replicate ?n 0), [])" "upper_pairs ?n" a b f es]
          assms
    by (simp add: square_zeros upper_pairs_set)
  with assms show ?thesis by (simp add: upper_pairs_set)
qed

lemma dm_loops_trace: "snd (dm_loops f es) = upper_pairs (length es)"
  by (simp add: dm_loops_pairs fold_body_trace)

lemma dm_loops_square: "square (length es) (fst (dm_loops f es))"
  unfolding dm_loops_pairs by (rule fold_body_square) (simp add: square_zeros)

lemma upper_pairs_distinct: "distinct (upper_pairs k)"
  unfolding upper_pairs_def
proof (rule distinct_concat)
  show "distinct (map (\<lambda>i. map (Pair i) [i + 1..<k]) [0..<k])"
  proof (simp only: distinct_map, intro conjI)
    show "distinct [0..<k]" by simp
    show "inj_on (\<lambda>i. map (Pair i) [i + 1..<k]) (set [0..<k])"
    proof (rule inj_onI)
      fix x y
      assume "x \<in> set [0..<k]" "y \<in> set [0..<k]"
        and eq: "map (Pair x) [x + 1..<k] = map (Pair y) [y + 1..<k]"
      from eq have len: "k - (x + 1) = k - (y + 1)"
        by (metis length_map length_upt)
      show "x = y"
      proof (cases "x + 1 < k")
        case True
        moreover from True len have "y + 1 < k" by arith
        ultimately have "(x, x + 1) = map (Pair x) [x + 1..<k] ! 0"
          and "map (Pair y) [y + 1..<k] ! 0 = (y, y + 1)" by simp_all
        then have "(x, x + 1) = (y, y + 1)" by (simp only: eq)
        then show ?thesis by simp
      next
        case False
        with len \<open>x \<in> set [0..<k]\<close> \<open>y \<in> set [0..<k]\<close> show ?thesis by simp
      qed
    qed
  qed
next
  fix ys assume "ys \<in> set (map (\<lambda>i. map (Pair i) [i + 1..<k]) [0..<k])"
  then show "distinct ys" by (auto simp: distinct_map inj_on_def)
next
  fix ys zs
  assume "ys \<in> set (map (\<lambda>i. map (Pair i) [i + 1..<k]) [0..<k])"
         "zs \<in> set (map (\<lambda>i. map (Pair i) [i + 1..<k]) [0..<k])" "ys \<noteq> zs"
  then show "set ys \<inter> set zs = {}" by auto
qed

text \<open>
  C3. For a list of \<open>k\<close> elements and an injected metric \<open>f\<close>, the builder returns a
  \<open>k \<times> k\<close> array with zero diagonal, whose entry \<open>(i, j)\<close> for \<open>i < j\<close> is \<open>f\<close> applied
  to elements \<open>i\<close> and \<open>j\<close> and equals entry \<open>(j, i)\<close>. The metric is called on the pairs
  of the upper triangle, each once and row by row, and so on no pair \<open>(i, i)\<close> and on no
  pair below the diagonal.
\<close>

theorem compute_distance_matrix_upper_triangle:
  fixes f :: "'a \<Rightarrow> 'a \<Rightarrow> real"
  shows "let k = length es;
             D = compute_distance_matrix bid es (Some f);
             calls = metric_calls bid es (Some f)
         in length D = k \<and> (\<forall>r \<in> set D. length r = k)
          \<and> (\<forall>i < k. D ! i ! i = 0)
          \<and> (\<forall>i j. i < j \<and> j < k \<longrightarrow> D ! i ! j = f (es ! i) (es ! j) \<and> D ! j ! i = D ! i ! j)
          \<and> calls = upper_pairs k \<and> distinct calls
          \<and> (\<forall>p \<in> set calls. fst p < snd p \<and> snd p < k)"
proof -
  have D: "compute_distance_matrix bid es (Some f) = fst (dm_loops f es)"
    by (simp add: compute_distance_matrix_def compute_distance_matrix_traced_def)
  have C: "metric_calls bid es (Some f) = upper_pairs (length es)"
    by (simp add: metric_calls_def compute_distance_matrix_traced_def dm_loops_trace)
  have sq: "square (length es) (fst (dm_loops f es))" by (rule dm_loops_square)
  have diag: "\<forall>i < length es. fst (dm_loops f es) ! i ! i = 0"
    by (simp add: dm_loops_entry)
  have upper: "\<forall>i j. i < j \<and> j < length es \<longrightarrow>
      fst (dm_loops f es) ! i ! j = f (es ! i) (es ! j)
      \<and> fst (dm_loops f es) ! j ! i = fst (dm_loops f es) ! i ! j"
    by (simp add: dm_loops_entry)
  have tri: "\<forall>p \<in> set (upper_pairs (length es)). fst p < snd p \<and> snd p < length es"
    by (auto simp: upper_pairs_set)
  show ?thesis
    unfolding Let_def D C
    using sq diag upper tri upper_pairs_distinct [of "length es"]
    unfolding square_def by blast
qed

theorem compute_distance_matrix_upper_triangle_witness:
  "let es = [0, 3, 7 :: real];
       D = compute_distance_matrix (\<lambda>a b. 0) es (Some (\<lambda>a b. \<bar>a - b\<bar>));
       calls = metric_calls (\<lambda>a b. 0) es (Some (\<lambda>a b. \<bar>a - b\<bar>))
   in (1::nat) < 2 \<and> (2::nat) < length es \<and> (1, 2) \<in> set calls
    \<and> D ! 1 ! 2 = 4 \<and> D ! 2 ! 1 = 4 \<and> D ! 1 ! 1 = 0 \<and> length D = 3
    \<and> calls = [(0, 1), (0, 2), (1, 2)]"
proof -
  let ?es = "[0, 3, 7 :: real]"
  let ?D = "compute_distance_matrix (\<lambda>a b. 0) ?es (Some (\<lambda>a b. \<bar>a - b\<bar>))"
  let ?calls = "metric_calls (\<lambda>a b. 0) ?es (Some (\<lambda>a b. \<bar>a - b\<bar>))"
  have up: "upper_pairs 3 = [(0, 1), (0, 2), (1, 2)]"
    by (simp add: upper_pairs_def upt_conv_Cons)
  have k: "length ?es = 3" by simp
  note T = compute_distance_matrix_upper_triangle
            [of ?es "\<lambda>a b. 0" "\<lambda>a b. \<bar>a - b\<bar>", unfolded Let_def k]
  from T have len: "length ?D = 3" by blast
  from T have "\<forall>i<3. ?D ! i ! i = 0" by blast
  then have diag: "?D ! 1 ! 1 = 0" by simp
  from T have "(1::nat) < 2 \<and> (2::nat) < 3 \<longrightarrow>
      ?D ! 1 ! 2 = \<bar>?es ! 1 - ?es ! 2\<bar> \<and> ?D ! 2 ! 1 = ?D ! 1 ! 2" by blast
  then have e: "?D ! 1 ! 2 = 4" "?D ! 2 ! 1 = 4" by simp_all
  from T have "?calls = upper_pairs 3" by blast
  then have c: "?calls = [(0, 1), (0, 2), (1, 2)]" by (simp only: up)
  show ?thesis unfolding Let_def using len diag e c by simp
qed

section \<open>Properties of the embedding dispatcher\<close>

text \<open>
  C7. For every input collection, a method name outside \<open>isomap\<close>, \<open>mds\<close>, \<open>pca\<close>
  makes \<open>geodesic_embedding\<close> fail with the unknown-method error, whatever the other
  arguments and the libraries do; for a method name among the three, no result of
  \<open>geodesic_embedding\<close> is that error.
\<close>

theorem geodesic_embedding_unknown_method:
  "(method \<notin> {''isomap'', ''mds'', ''pca''} \<longrightarrow>
      geodesic_embedding lib bid elements method n_components distance_func kwargs
        = Inl (UnknownMethod method))
 \<and> (method \<in> {''isomap'', ''mds'', ''pca''} \<longrightarrow>
      (\<forall>m. geodesic_embedding lib bid elements method n_components distance_func kwargs
        \<noteq> Inl (UnknownMethod m)))"
  by (auto simp: geodesic_embedding_def isomap_embedding_def library_result_def Let_def
        split: sum.splits)

theorem geodesic_embedding_unknown_method_witness:
  "''invalid'' \<notin> {''isomap'', ''mds'', ''pca''}
   \<and> geodesic_embedding origin_sklearn (\<lambda>a b. 0) [] ''invalid'' 2 None Map.empty
       = Inl (UnknownMethod ''invalid'')
   \<and> ''pca'' \<in> {''isomap'', ''mds'', ''pca''}
   \<and> geodesic_embedding origin_sklearn (\<lambda>a b. 0) [] ''pca'' 2 None Map.empty
       \<noteq> Inl (UnknownMethod ''pca'')"
  using geodesic_embedding_unknown_method
          [of "''invalid''" origin_sklearn "\<lambda>a b. 0" "[]" 2 None Map.empty]
        geodesic_embedding_unknown_method
          [of "''pca''" origin_sklearn "\<lambda>a b. 0" "[]" 2 None Map.empty]
  by simp

section \<open>Properties of the batch sampler\<close>







section \<open>Properties of the matrix logarithm\<close>

lemma upt2: "[0..<2] = [0, 1]"
  by (simp add: upt_conv_Cons)

lemma upt3: "[0..<3] = [0, 1, 2]"
  by (simp add: upt_conv_Cons)







lemma library_result_error: "library_result r \<noteq> Inl NonPositiveEigenvalue"
  by (simp add: library_result_def split: sum.split)









section \<open>Properties of the alcove coordinates\<close>

lemma Arg_one: "Arg 1 = 0"
  by (rule cis_Arg_unique) simp_all

lemma sorted_angles_example: "sorted_angles [\<i>, 1, - \<i>] = [pi / 2, 0, - (pi / 2)]"
  using pi_gt_zero by (simp add: sorted_angles_def mean_def Arg_one Let_def not_le)

lemma np_diff3: "np_diff [a, b, c] = [b - a, c - b]"
  by (simp add: np_diff_def upt2)

text \<open>On three eigenvalues the general routine returns the negated coordinates of the
  routine for SU(3).\<close>

lemma sun_negates_su3:
  assumes "eig lib U = Inr (w, V)" "length w = 3"
  shows "\<exists>e1 e2. su3_alcove_coords lib U = Inr [e1, e2]
                 \<and> sun_alcove_coords lib U = Inr [- e1, - e2]"
proof -
  have "length (sorted_angles w) = 3" using assms(2) by (simp add: sorted_angles_def Let_def)
  then obtain a b c where abc: "sorted_angles w = [a, b, c]"
    by (auto simp: length_Suc_conv numeral_3_eq_3)
  show ?thesis using assms(1)
    by (simp add: su3_alcove_coords_def sun_alcove_coords_def library_result_def abc np_diff3 Let_def)
qed

text \<open>
  C10. The claim is that on a matrix of SU(3) the general routine \<open>sun_alcove_coords\<close>
  returns the vector that \<open>su3_alcove_coords\<close> returns. At \<open>diag(\<i>, 1, -\<i>)\<close>, a matrix
  of SU(3), the code returns \<open>(\<pi>/2, \<pi>/2)\<close> from the routine for SU(3) and
  \<open>(-\<pi>/2, -\<pi>/2)\<close> from the general routine: \<^verbatim>\<open>np.diff\<close> of the angles sorted
  descending takes each difference the other way round.
\<close>

theorem alcove_routines_disagree:
  "su3_alcove_coords diagonal_lapack [[\<i>, 0, 0], [0, 1, 0], [0, 0, - \<i>]] = Inr [pi / 2, pi / 2]
   \<and> sun_alcove_coords diagonal_lapack [[\<i>, 0, 0], [0, 1, 0], [0, 0, - \<i>]]
        = Inr [- (pi / 2), - (pi / 2)]
   \<and> sun_alcove_coords diagonal_lapack [[\<i>, 0, 0], [0, 1, 0], [0, 0, - \<i>]]
        \<noteq> su3_alcove_coords diagonal_lapack [[\<i>, 0, 0], [0, 1, 0], [0, 0, - \<i>]]"
proof -
  have "su3_alcove_coords diagonal_lapack [[\<i>, 0, 0], [0, 1, 0], [0, 0, - \<i>]]
          = Inr [pi / 2, pi / 2]"
    by (simp add: su3_alcove_coords_def diagonal_lapack_def diagonal_def
        library_result_def upt3 sorted_angles_example Let_def)
  moreover have "sun_alcove_coords diagonal_lapack [[\<i>, 0, 0], [0, 1, 0], [0, 0, - \<i>]]
          = Inr [- (pi / 2), - (pi / 2)]"
    by (simp add: sun_alcove_coords_def diagonal_lapack_def diagonal_def
        library_result_def upt3 sorted_angles_example np_diff3)
  ultimately show ?thesis using pi_gt_zero by simp
qed

section \<open>Properties of the embedding-quality analyzer\<close>



lemma constant_input_short: "length x < 2 \<Longrightarrow> constant_input x"
proof (cases x)
  case Nil
  then show ?thesis by (simp add: constant_input_def)
next
  case (Cons a as)
  assume "length x < 2"
  with Cons have "as = []" by simp
  with Cons show ?thesis by (simp add: constant_input_def)
qed


lemma sum_squares_zero:
  fixes v :: "real list"
  shows "sum_list (map (\<lambda>a. a\<^sup>2) v) = 0 \<longleftrightarrow> (\<forall>a \<in> set v. a = 0)"
proof (induction v)
  case Nil
  show ?case by simp
next
  case (Cons a v)
  have "0 \<le> sum_list (map (\<lambda>a. a\<^sup>2) v)" by (rule sum_list_nonneg) auto
  then have "a\<^sup>2 + sum_list (map (\<lambda>a. a\<^sup>2) v) = 0
             \<longleftrightarrow> a\<^sup>2 = 0 \<and> sum_list (map (\<lambda>a. a\<^sup>2) v) = 0"
    by (intro add_nonneg_eq_0_iff) simp_all
  with Cons show ?case by simp
qed

lemma sum_squares_nonneg:
  fixes v :: "real list"
  shows "0 \<le> sum_list (map (\<lambda>a. a\<^sup>2) v)"
  by (rule sum_list_nonneg) auto









lemma triu_indices_square: "triu_indices n n = upper_pairs n"
  by (simp add: triu_indices_def upper_pairs_def)




lemma upper_pairs_short: "n \<le> 1 \<Longrightarrow> upper_pairs n = []"
  by (cases n) (simp_all add: upper_pairs_def)



text \<open>The clipping in \<open>pearsonr\<close> changes nothing over the reals: by the
  Cauchy-Schwarz inequality the dot product of two normalised vectors lies in
  \<open>[-1, 1]\<close> already.\<close>

lemma quadratic_expand:
  fixes a b :: "real list"
  assumes "length a = length b"
  shows "sum_list (map2 (\<lambda>x y. (x * t - y)\<^sup>2) a b)
           = t\<^sup>2 * sum_list (map (\<lambda>x. x\<^sup>2) a) - 2 * t * dot a b + sum_list (map (\<lambda>y. y\<^sup>2) b)"
  using assms unfolding dot_def
  by (induction a b rule: list_induct2) (simp_all add: power2_eq_square algebra_simps)

lemma dot_zero_left:
  assumes "length a = length b" "\<forall>x \<in> set a. x = 0"
  shows "dot a b = 0"
  using assms unfolding dot_def
  by (induction a b rule: list_induct2) simp_all

lemma cauchy_schwarz:
  fixes a b :: "real list"
  assumes "length a = length b"
  shows "(dot a b)\<^sup>2 \<le> sum_list (map (\<lambda>x. x\<^sup>2) a) * sum_list (map (\<lambda>y. y\<^sup>2) b)"
proof -
  let ?A = "sum_list (map (\<lambda>x. x\<^sup>2) a)" and ?B = "sum_list (map (\<lambda>y. y\<^sup>2) b)"
  let ?S = "dot a b"
  have nonneg: "0 \<le> t\<^sup>2 * ?A - 2 * t * ?S + ?B" for t
  proof -
    have "0 \<le> sum_list (map2 (\<lambda>x y. (x * t - y)\<^sup>2) a b)"
      by (rule sum_list_nonneg) auto
    then show ?thesis by (simp only: quadratic_expand [OF assms])
  qed
  show ?thesis
  proof (cases "?A = 0")
    case True
    then have "\<forall>x \<in> set a. x = 0" by (simp only: sum_squares_zero)
    with assms have "?S = 0" by (rule dot_zero_left)
    with True show ?thesis by simp
  next
    case False
    with sum_squares_nonneg [of a] have pos: "0 < ?A" by simp
    from nonneg [of "?S / ?A"] have "0 \<le> (?S / ?A)\<^sup>2 * ?A - 2 * (?S / ?A) * ?S + ?B" .
    also have "(?S / ?A)\<^sup>2 * ?A - 2 * (?S / ?A) * ?S + ?B = ?B - ?S\<^sup>2 / ?A"
      using pos by (simp add: power2_eq_square field_simps)
    finally have "?S\<^sup>2 / ?A \<le> ?B" by simp
    with pos show ?thesis by (simp add: field_simps)
  qed
qed

lemma dot_scaled:
  assumes "length a = length b"
  shows "dot (map (\<lambda>x. x / M) a) (map (\<lambda>y. y / N) b) = dot a b / (M * N)"
  using assms unfolding dot_def
  by (induction a b rule: list_induct2) (simp_all add: add_divide_distrib)

lemma normalised_dot_bounded:
  assumes "length a = length b"
  shows "\<bar>dot (map (\<lambda>x. x / norm2 a) a) (map (\<lambda>y. y / norm2 b) b)\<bar> \<le> 1"
proof (cases "norm2 a * norm2 b = 0")
  case True
  then have "dot a b / (norm2 a * norm2 b) = 0" by simp
  then show ?thesis by (simp only: dot_scaled [OF assms] abs_zero zero_le_one)
next
  case False
  have na: "0 \<le> norm2 a" and nb: "0 \<le> norm2 b" by (simp_all add: norm2_def sum_squares_nonneg)
  with False have pos: "0 < norm2 a * norm2 b" by (simp add: less_le)
  have "(dot a b)\<^sup>2 \<le> (norm2 a)\<^sup>2 * (norm2 b)\<^sup>2"
    using cauchy_schwarz [OF assms] by (simp add: norm2_def sum_squares_nonneg)
  then have "(dot a b)\<^sup>2 \<le> (norm2 a * norm2 b)\<^sup>2" by (simp add: power_mult_distrib)
  then have "\<bar>dot a b\<bar> \<le> norm2 a * norm2 b"
    using pos by (simp add: abs_le_square_iff [symmetric])
  then have "\<bar>dot a b / (norm2 a * norm2 b)\<bar> \<le> 1"
    using pos by (simp add: abs_divide abs_of_pos)
  then show ?thesis by (simp only: dot_scaled [OF assms])
qed

lemma clip_inert: "\<bar>r\<bar> \<le> 1 \<Longrightarrow> clip r = r"
  by (simp add: clip_def)

lemma pearsonr_unclipped:
  assumes "length x = length y" "\<not> constant_input x" "\<not> constant_input y"
  shows "pearsonr x y =
           Inr (Num (dot (map (\<lambda>a. a / norm2 (center x)) (center x))
                         (map (\<lambda>a. a / norm2 (center y)) (center y))))"
proof -
  have "\<not> length x < 2" using assms(2) constant_input_short by blast
  moreover have "length (center x) = length (center y)" using assms(1) by (simp add: center_def)
  ultimately show ?thesis
    using assms by (simp add: pearsonr_def Let_def clip_inert normalised_dot_bounded)
qed

text \<open>With all distances equal, as for the corners of an equilateral triangle, the
  Pearson correlation of a perfect embedding is \<^verbatim>\<open>nan\<close>.\<close>

lemma pearsonr_constant:
  assumes "constant_input x" "2 \<le> length x"
  shows "pearsonr x x = Inr NaN"
  using assms by (simp add: pearsonr_def)






lemma upper_pairs_3: "upper_pairs (Suc (Suc (Suc 0))) = [(0, 1), (0, 2), (1, 2)]"
  by (simp add: upper_pairs_def upt_conv_Cons eval_nat_numeral)



text \<open>Three points at equal distances, the corners of an equilateral triangle: the
  embedding is perfect and the Pearson correlation is \<^verbatim>\<open>nan\<close>.\<close>

lemma analyze_equilateral:
  "perfect_embedding [[1, 0, 0], [0, 1, 0], [0, 0, 1]]
     [[0, sqrt 2, sqrt 2], [sqrt 2, 0, sqrt 2], [sqrt 2, sqrt 2, 0]]
   \<and> (\<exists>q. analyze_embedding_quality [[1, 0, 0], [0, 1, 0], [0, 0, 1]]
             [[0, sqrt 2, sqrt 2], [sqrt 2, 0, sqrt 2], [sqrt 2, sqrt 2, 0]] = Inr q
          \<and> pearson_correlation q = NaN)"
proof -
  let ?X = "[[1, 0, 0], [0, 1, 0], [0, 0, 1 :: real]]"
  let ?D = "[[0, sqrt 2, sqrt 2], [sqrt 2, 0, sqrt 2], [sqrt 2, sqrt 2, 0]]"
  have e: "euclidean [1, 0, 0] [0, 1, 0] = sqrt 2" "euclidean [1, 0, 0] [0, 0, 1] = sqrt 2"
    "euclidean [0, 1, 0] [0, 0, 1] = sqrt 2" "euclidean [0, 1, 0] [1, 0, 0] = sqrt 2"
    "euclidean [0, 0, 1] [1, 0, 0] = sqrt 2" "euclidean [0, 0, 1] [0, 1, 0] = sqrt 2"
    by (simp_all add: euclidean_def)
  have m: "triu_indices_from ?D = [(0, 1), (0, 2), (1, 2)]"
    by (simp add: triu_indices_from_def ncols_def triu_indices_square upper_pairs_3)
  have sq: "squareform_pdist ?X = ?D"
    by (simp add: squareform_pdist_def upt3 e)
  have p: "perfect_embedding ?X ?D"
    by (simp add: perfect_embedding_def upper_pairs_3 e)
  have "pearsonr [sqrt 2, sqrt 2, sqrt 2] [sqrt 2, sqrt 2, sqrt 2] = Inr NaN"
    by (rule pearsonr_constant) (simp_all add: constant_input_def)
  then have "\<exists>q. analyze_embedding_quality ?X ?D = Inr q \<and> pearson_correlation q = NaN"
    by (simp add: analyze_embedding_quality_def sq m mask_in_bounds_def ncols_def take_mask_def
        Let_def)
  with p show ?thesis by blast
qed

end
